theory Spec2Isabelle
  imports Main
begin

section \<open>Data model\<close>

text \<open>
  The router \<^verbatim>\<open>packages/trpc/routers/lists.ts\<close> works on three tables of the store:
  \<^verbatim>\<open>bookmarkLists\<close>, \<^verbatim>\<open>bookmarksInLists\<close> and (through the bookmark guard) the bookmarks.
  A table is the list of its rows, in insertion order. Identifiers are strings.
\<close>

datatype list_kind = manual | smart

text \<open>A row of \<^verbatim>\<open>bookmarkLists\<close>: the columns the router reads and writes
  (\<^verbatim>\<open>id, name, icon, userId, parentId, type, query\<close>); \<^verbatim>\<open>parentId\<close> and \<^verbatim>\<open>query\<close> are
  nullable.\<close>

record bookmarkList =
  list_id :: string
  list_name :: string
  list_icon :: string
  list_userId :: string
  list_parentId :: "string option"
  list_type :: list_kind
  list_query :: "string option"

text \<open>A row of \<^verbatim>\<open>bookmarksInLists\<close>: the pair \<^verbatim>\<open>(listId, bookmarkId)\<close>.\<close>

record bookmarkInList =
  bil_listId :: string
  bil_bookmarkId :: string

text \<open>A bookmark, as far as the ownership guard of the bookmark collaborator reads it.\<close>

record bookmark =
  bm_id :: string
  bm_userId :: string

record db =
  bookmarkLists :: "bookmarkList list"
  bookmarksInLists :: "bookmarkInList list"
  bookmarks :: "bookmark list"

record user =
  user_id :: string

text \<open>The request context: \<^verbatim>\<open>ctx.user\<close> is absent for an anonymous caller.\<close>

record ctx =
  ctx_user :: "user option"

subsection \<open>Errors\<close>

text \<open>
  A \<^verbatim>\<open>TRPCError\<close> carries a code and an optional message. The spec's error kinds are
  the codes: Unauthenticated is \<^verbatim>\<open>UNAUTHORIZED\<close>, NotFound is \<^verbatim>\<open>NOT_FOUND\<close>, Forbidden is
  \<^verbatim>\<open>FORBIDDEN\<close>, InvalidArgument is \<^verbatim>\<open>BAD_REQUEST\<close>, Internal is
  \<^verbatim>\<open>INTERNAL_SERVER_ERROR\<close>. The other constructors are the values the code can throw
  that are not a \<^verbatim>\<open>TRPCError\<close>: the store's \<^verbatim>\<open>SqliteError\<close> with its code, a failed
  \<^verbatim>\<open>invariant(...)\<close>, a failed \<^verbatim>\<open>assert(...)\<close>, a property read on \<^verbatim>\<open>null\<close>, and any
  other fault of the store.
\<close>

datatype code = UNAUTHORIZED | NOT_FOUND | FORBIDDEN | BAD_REQUEST | INTERNAL_SERVER_ERROR

datatype error =
    TRPCError code "string option"
  | SqliteError string
  | InvariantError
  | AssertionError
  | TypeError
  | OtherError

text \<open>The outcome of a procedure: the thrown error or the returned value, and the store
  as the procedure leaves it.\<close>

type_synonym 'a outcome = "(error + 'a) \<times> db"

subsection \<open>Inputs\<close>

text \<open>A JavaScript value that may be \<^verbatim>\<open>undefined\<close> (the key is not given), \<^verbatim>\<open>null\<close> or a
  value.\<close>

datatype 'a js = Undefined | Null | Val 'a

text \<open>Truthiness of an optional string, as \<^verbatim>\<open>if (input.query)\<close> tests it: \<^verbatim>\<open>undefined\<close>,
  \<^verbatim>\<open>null\<close> and the empty string are falsy.\<close>

fun truthy :: "string js \<Rightarrow> bool" where
  "truthy Undefined = False"
| "truthy Null = False"
| "truthy (Val s) = (s \<noteq> [])"

text \<open>Modelled from the spec: the input schemas \<^verbatim>\<open>zNewBookmarkListSchema\<close> and
  \<^verbatim>\<open>zEditBookmarkListSchemaWithValidation\<close> (\<^verbatim>\<open>@hoarder/shared/types/lists\<close>) are not among
  the sources. The spec gives \<^verbatim>\<open>create(ownerId, name, icon, parentId?, type, query?)\<close> and
  \<^verbatim>\<open>edit(callerId, listId, name?, icon?, parentId?, query?)\<close>. An input is what the handler
  receives after validation. On insert an absent and a \<^verbatim>\<open>null\<close> value both store \<^verbatim>\<open>NULL\<close>,
  so the optional fields of the new list are options; on update an \<^verbatim>\<open>undefined\<close> field is
  skipped and a \<^verbatim>\<open>null\<close> one stores \<^verbatim>\<open>NULL\<close>, so the nullable columns are three-valued.\<close>

record new_input =
  new_name :: string
  new_icon :: string
  new_parentId :: "string option"
  new_type :: list_kind
  new_query :: "string option"

record edit_input =
  edit_listId :: string
  edit_name :: "string option"
  edit_icon :: "string option"
  edit_parentId :: "string js"
  edit_query :: "string js"

section \<open>The store\<close>

text \<open>\<^verbatim>\<open>findFirst({where: p})\<close>: the first row that satisfies the predicate, if any.\<close>

definition findFirst :: "('a \<Rightarrow> bool) \<Rightarrow> 'a list \<Rightarrow> 'a option" where
  "findFirst p rows = find p rows"

text \<open>\<^verbatim>\<open>findMany({where: p})\<close>: the rows that satisfy the predicate.\<close>

definition findMany :: "('a \<Rightarrow> bool) \<Rightarrow> 'a list \<Rightarrow> 'a list" where
  "findMany p rows = filter p rows"

text \<open>\<^verbatim>\<open>insert(bookmarkLists).values(row).returning()\<close>, with the one row it returns.
  The identifier is the table's key: a row whose identifier is taken is refused by the
  store.\<close>

definition insert_bookmarkLists :: "bookmarkList \<Rightarrow> db \<Rightarrow> error + (bookmarkList \<times> db)" where
  "insert_bookmarkLists row d =
     (if list_id row \<in> set (map list_id (bookmarkLists d))
      then Inl (SqliteError ''SQLITE_CONSTRAINT_PRIMARYKEY'')
      else Inr (row, d\<lparr>bookmarkLists := bookmarkLists d @ [row]\<rparr>))"

text \<open>\<^verbatim>\<open>update(bookmarkLists).set(f).where(p).returning()\<close>: every row that satisfies the
  predicate is rewritten; the rewritten rows are returned.\<close>

definition update_bookmarkLists ::
  "(bookmarkList \<Rightarrow> bookmarkList) \<Rightarrow> (bookmarkList \<Rightarrow> bool) \<Rightarrow> db \<Rightarrow> bookmarkList list \<times> db" where
  "update_bookmarkLists f p d =
     (map f (filter p (bookmarkLists d)),
      d\<lparr>bookmarkLists := map (\<lambda>r. if p r then f r else r) (bookmarkLists d)\<rparr>)"

text \<open>Modelled from the spec: the schema (\<^verbatim>\<open>@hoarder/db/schema\<close>), which declares what the
  store does with the rows that reference a deleted list, is not among the sources. The spec
  says: "deletion must cascade-remove all Membership rows referencing it (owning
  relationship: List owns its Membership rows)". So \<^verbatim>\<open>delete(bookmarkLists).where(p)\<close>
  removes the rows that satisfy the predicate and every \<^verbatim>\<open>bookmarksInLists\<close> row whose
  \<^verbatim>\<open>listId\<close> is the identifier of a removed row; \<^verbatim>\<open>changes\<close> is the number of list rows
  removed. Neither the spec nor the sources say what happens to the \<^verbatim>\<open>parentId\<close> of a child
  list; it is left as it is.\<close>

definition delete_bookmarkLists :: "(bookmarkList \<Rightarrow> bool) \<Rightarrow> db \<Rightarrow> nat \<times> db" where
  "delete_bookmarkLists p d =
     (let gone = map list_id (filter p (bookmarkLists d)) in
      (length (filter p (bookmarkLists d)),
       d\<lparr>bookmarkLists := filter (\<lambda>r. \<not> p r) (bookmarkLists d),
         bookmarksInLists := filter (\<lambda>m. bil_listId m \<notin> set gone) (bookmarksInLists d)\<rparr>))"

text \<open>\<^verbatim>\<open>insert(bookmarksInLists).values(row)\<close>. The pair is the table's key: a pair that is
  already there is refused with \<^verbatim>\<open>SQLITE_CONSTRAINT_PRIMARYKEY\<close>. The argument \<open>fault\<close> is
  the environment: any other failure of the store during this insert, which throws and
  writes nothing.\<close>

definition insert_bookmarksInLists :: "error option \<Rightarrow> bookmarkInList \<Rightarrow> db \<Rightarrow> error + db" where
  "insert_bookmarksInLists fault row d =
     (case fault of
        Some e \<Rightarrow> Inl e
      | None \<Rightarrow>
          if row \<in> set (bookmarksInLists d)
          then Inl (SqliteError ''SQLITE_CONSTRAINT_PRIMARYKEY'')
          else Inr (d\<lparr>bookmarksInLists := bookmarksInLists d @ [row]\<rparr>))"

text \<open>\<^verbatim>\<open>delete(bookmarksInLists).where(p)\<close>, with the number of rows removed.\<close>

definition delete_bookmarksInLists :: "(bookmarkInList \<Rightarrow> bool) \<Rightarrow> db \<Rightarrow> nat \<times> db" where
  "delete_bookmarksInLists p d =
     (length (filter p (bookmarksInLists d)),
      d\<lparr>bookmarksInLists := filter (\<lambda>m. \<not> p m) (bookmarksInLists d)\<rparr>)"

section \<open>Middleware\<close>

text \<open>Modelled from the spec: \<^verbatim>\<open>authedProcedure\<close> (\<^verbatim>\<open>../index\<close>) is not among the sources.
  The spec says: "Unauthenticated: no caller identity present where one is required". The
  handler runs with the caller's identity.\<close>

definition authedProcedure :: "ctx \<Rightarrow> (user \<Rightarrow> db \<Rightarrow> 'a outcome) \<Rightarrow> db \<Rightarrow> 'a outcome" where
  "authedProcedure c body d =
     (case ctx_user c of
        None \<Rightarrow> (Inl (TRPCError UNAUTHORIZED None), d)
      | Some u \<Rightarrow> body u d)"

text \<open>\<^verbatim>\<open>ensureListOwnership\<close>: the list is read first, then the three checks run in the
  order of the source; \<open>next\<close> is the rest of the procedure.\<close>

definition ensureListOwnership :: "ctx \<Rightarrow> string \<Rightarrow> (db \<Rightarrow> 'a outcome) \<Rightarrow> db \<Rightarrow> 'a outcome" where
  "ensureListOwnership c listId next d =
     (let list = findFirst (\<lambda>r. list_id r = listId) (bookmarkLists d) in
      case ctx_user c of
        None \<Rightarrow> (Inl (TRPCError UNAUTHORIZED (Some ''User is not authorized'')), d)
      | Some u \<Rightarrow>
          (case list of
             None \<Rightarrow> (Inl (TRPCError NOT_FOUND (Some ''List not found'')), d)
           | Some l \<Rightarrow>
               if list_userId l \<noteq> user_id u
               then (Inl (TRPCError FORBIDDEN (Some ''User is not allowed to access resource'')), d)
               else next d))"

text \<open>Modelled from the spec: \<^verbatim>\<open>ensureBookmarkOwnership\<close> (\<^verbatim>\<open>./bookmarks\<close>) is not among the
  sources. The spec says: "\<^verbatim>\<open>authorizeBookmark(callerId, bookmarkId) -> Outcome\<close> (same
  contract shape as the List Ownership Guard)". The spec gives no messages, so the errors
  carry none.\<close>

definition ensureBookmarkOwnership :: "ctx \<Rightarrow> string \<Rightarrow> (db \<Rightarrow> 'a outcome) \<Rightarrow> db \<Rightarrow> 'a outcome" where
  "ensureBookmarkOwnership c bookmarkId next d =
     (let bookmark = findFirst (\<lambda>b. bm_id b = bookmarkId) (bookmarks d) in
      case ctx_user c of
        None \<Rightarrow> (Inl (TRPCError UNAUTHORIZED None), d)
      | Some u \<Rightarrow>
          (case bookmark of
             None \<Rightarrow> (Inl (TRPCError NOT_FOUND None), d)
           | Some b \<Rightarrow>
               if bm_userId b \<noteq> user_id u
               then (Inl (TRPCError FORBIDDEN None), d)
               else next d))"

subsection \<open>Passing a guard\<close>

text \<open>A continuation that returns at once, standing for the guarded operation.\<close>

definition proceed :: "db \<Rightarrow> unit outcome" where
  "proceed d = (Inr (), d)"

text \<open>A caller passes a guard in a store when the guard lets the continuation run
  there.\<close>

definition passes_list_guard :: "ctx \<Rightarrow> string \<Rightarrow> db \<Rightarrow> bool" where
  "passes_list_guard c listId d \<longleftrightarrow> ensureListOwnership c listId proceed d = (Inr (), d)"

definition passes_bookmark_guard :: "ctx \<Rightarrow> string \<Rightarrow> db \<Rightarrow> bool" where
  "passes_bookmark_guard c bookmarkId d \<longleftrightarrow>
     ensureBookmarkOwnership c bookmarkId proceed d = (Inr (), d)"

section \<open>The procedures of the router\<close>

subsection \<open>create\<close>

text \<open>The identifier of a new row is generated by the store; \<open>newId\<close> is the identifier
  it generates for this call.\<close>

definition create_mutation :: "string \<Rightarrow> user \<Rightarrow> new_input \<Rightarrow> db \<Rightarrow> bookmarkList outcome" where
  "create_mutation newId u inp d =
     (case insert_bookmarkLists
             \<lparr>list_id = newId, list_name = new_name inp, list_icon = new_icon inp,
              list_userId = user_id u, list_parentId = new_parentId inp,
              list_type = new_type inp, list_query = new_query inp\<rparr> d of
        Inl e \<Rightarrow> (Inl e, d)
      | Inr (result, d') \<Rightarrow> (Inr result, d'))"

definition create :: "ctx \<Rightarrow> string \<Rightarrow> new_input \<Rightarrow> db \<Rightarrow> bookmarkList outcome" where
  "create c newId inp = authedProcedure c (\<lambda>u. create_mutation newId u inp)"

subsection \<open>edit\<close>

text \<open>\<^verbatim>\<open>.set({name, icon, parentId, query})\<close>: a field that is \<^verbatim>\<open>undefined\<close> is left out of
  the update.\<close>

definition edit_set :: "edit_input \<Rightarrow> bookmarkList \<Rightarrow> bookmarkList" where
  "edit_set inp r =
     r\<lparr>list_name := (case edit_name inp of None \<Rightarrow> list_name r | Some n \<Rightarrow> n),
       list_icon := (case edit_icon inp of None \<Rightarrow> list_icon r | Some i \<Rightarrow> i),
       list_parentId :=
         (case edit_parentId inp of Undefined \<Rightarrow> list_parentId r | Null \<Rightarrow> None | Val p \<Rightarrow> Some p),
       list_query :=
         (case edit_query inp of Undefined \<Rightarrow> list_query r | Null \<Rightarrow> None | Val q \<Rightarrow> Some q)\<rparr>"

text \<open>The check of the query, lines 74 to 89: the error it throws, if any.\<close>

definition edit_check :: "user \<Rightarrow> edit_input \<Rightarrow> db \<Rightarrow> error option" where
  "edit_check u inp d =
     (if truthy (edit_query inp) then
        (case findFirst (\<lambda>r. list_id r = edit_listId inp \<and> list_userId r = user_id u)
                (bookmarkLists d) of
           None \<Rightarrow> Some InvariantError
         | Some list \<Rightarrow>
             if list_type list \<noteq> smart
             then Some (TRPCError BAD_REQUEST (Some ''Manual lists cannot have a query''))
             else None)
      else None)"

definition edit_mutation :: "user \<Rightarrow> edit_input \<Rightarrow> db \<Rightarrow> bookmarkList outcome" where
  "edit_mutation u inp d =
     (case edit_check u inp d of
        Some e \<Rightarrow> (Inl e, d)
      | None \<Rightarrow>
          (case update_bookmarkLists (edit_set inp)
                  (\<lambda>r. list_id r = edit_listId inp \<and> list_userId r = user_id u) d of
             (result, d') \<Rightarrow>
               (case result of
                  [] \<Rightarrow> (Inl (TRPCError NOT_FOUND None), d')
                | r # _ \<Rightarrow> (Inr r, d'))))"

definition edit :: "ctx \<Rightarrow> edit_input \<Rightarrow> db \<Rightarrow> bookmarkList outcome" where
  "edit c inp =
     authedProcedure c (\<lambda>u. ensureListOwnership c (edit_listId inp) (edit_mutation u inp))"

subsection \<open>delete\<close>

definition delete_mutation :: "user \<Rightarrow> string \<Rightarrow> db \<Rightarrow> unit outcome" where
  "delete_mutation u listId d =
     (case delete_bookmarkLists (\<lambda>r. list_id r = listId \<and> list_userId r = user_id u) d of
        (changes, d') \<Rightarrow>
          if changes = 0 then (Inl (TRPCError NOT_FOUND None), d') else (Inr (), d'))"

definition delete :: "ctx \<Rightarrow> string \<Rightarrow> db \<Rightarrow> unit outcome" where
  "delete c listId =
     authedProcedure c (\<lambda>u. ensureListOwnership c listId (delete_mutation u listId))"

subsection \<open>addToList\<close>

definition addToList_mutation :: "error option \<Rightarrow> user \<Rightarrow> string \<Rightarrow> string \<Rightarrow> db \<Rightarrow> unit outcome" where
  "addToList_mutation fault u listId bookmarkId d =
     (case findFirst (\<lambda>r. list_id r = listId \<and> list_userId r = user_id u) (bookmarkLists d) of
        None \<Rightarrow> (Inl InvariantError, d)
      | Some list \<Rightarrow>
          if list_type list = smart
          then (Inl (TRPCError BAD_REQUEST (Some ''Smart lists cannot be added to'')), d)
          else
            (case insert_bookmarksInLists fault
                    \<lparr>bil_listId = listId, bil_bookmarkId = bookmarkId\<rparr> d of
               Inr d' \<Rightarrow> (Inr (), d')
             | Inl e \<Rightarrow>
                 (case e of
                    SqliteError c \<Rightarrow>
                      if c = ''SQLITE_CONSTRAINT_PRIMARYKEY''
                      then (Inl (TRPCError BAD_REQUEST
                              (Some (''Bookmark '' @ bookmarkId @ '' is already in the list '' @ listId))), d)
                      else (Inl (TRPCError INTERNAL_SERVER_ERROR (Some ''Something went wrong'')), d)
                  | _ \<Rightarrow> (Inl (TRPCError INTERNAL_SERVER_ERROR (Some ''Something went wrong'')), d))))"

definition addToList :: "ctx \<Rightarrow> error option \<Rightarrow> string \<Rightarrow> string \<Rightarrow> db \<Rightarrow> unit outcome" where
  "addToList c fault listId bookmarkId =
     authedProcedure c (\<lambda>u.
       ensureListOwnership c listId
         (ensureBookmarkOwnership c bookmarkId (addToList_mutation fault u listId bookmarkId)))"

subsection \<open>removeFromList\<close>

definition removeFromList_mutation :: "user \<Rightarrow> string \<Rightarrow> string \<Rightarrow> db \<Rightarrow> unit outcome" where
  "removeFromList_mutation u listId bookmarkId d =
     (case delete_bookmarksInLists
             (\<lambda>m. bil_listId m = listId \<and> bil_bookmarkId m = bookmarkId) d of
        (changes, d') \<Rightarrow>
          if changes = 0
          then (Inl (TRPCError BAD_REQUEST
                  (Some (''Bookmark '' @ bookmarkId @ '' is already not in list '' @ listId))), d')
          else (Inr (), d'))"

definition removeFromList :: "ctx \<Rightarrow> string \<Rightarrow> string \<Rightarrow> db \<Rightarrow> unit outcome" where
  "removeFromList c listId bookmarkId =
     authedProcedure c (\<lambda>u.
       ensureListOwnership c listId
         (ensureBookmarkOwnership c bookmarkId (removeFromList_mutation u listId bookmarkId)))"

subsection \<open>getListsOfBookmark\<close>

text \<open>\<^verbatim>\<open>findMany({where: bookmarkId, with: {list: true}})\<close>: every row of the bookmark with
  the list its \<^verbatim>\<open>listId\<close> names. A row whose list is missing has \<^verbatim>\<open>list = null\<close>, and
  \<^verbatim>\<open>l.list.userId\<close> throws there.\<close>

definition getListsOfBookmark_query :: "user \<Rightarrow> string \<Rightarrow> db \<Rightarrow> bookmarkList list outcome" where
  "getListsOfBookmark_query u bookmarkId d =
     (let rows = findMany (\<lambda>m. bil_bookmarkId m = bookmarkId) (bookmarksInLists d);
          joined = map (\<lambda>m. findFirst (\<lambda>l. list_id l = bil_listId m) (bookmarkLists d)) rows
      in case those joined of
           None \<Rightarrow> (Inl TypeError, d)
         | Some ls \<Rightarrow>
             if list_all (\<lambda>i. i = user_id u) (map list_userId ls)
             then (Inr ls, d)
             else (Inl AssertionError, d))"

definition getListsOfBookmark :: "ctx \<Rightarrow> string \<Rightarrow> db \<Rightarrow> bookmarkList list outcome" where
  "getListsOfBookmark c bookmarkId =
     authedProcedure c (\<lambda>u.
       ensureBookmarkOwnership c bookmarkId (getListsOfBookmark_query u bookmarkId))"

section \<open>Invariants and relations of the store\<close>

text \<open>The identifier is the key of \<^verbatim>\<open>bookmarkLists\<close>.\<close>

definition unique_ids :: "db \<Rightarrow> bool" where
  "unique_ids d \<longleftrightarrow> distinct (map list_id (bookmarkLists d))"

text \<open>Invariant I3 of the spec: no pair \<^verbatim>\<open>(listId, bookmarkId)\<close> is stored twice.\<close>

definition inv_I3 :: "db \<Rightarrow> bool" where
  "inv_I3 d \<longleftrightarrow> distinct (bookmarksInLists d)"

text \<open>Invariant I4 of the spec: a membership row references a stored list whose type is
  manual.\<close>

definition inv_I4 :: "db \<Rightarrow> bool" where
  "inv_I4 d \<longleftrightarrow>
     (\<forall>m \<in> set (bookmarksInLists d).
        \<exists>l \<in> set (bookmarkLists d). list_id l = bil_listId m \<and> list_type l = manual)"

definition wf_db :: "db \<Rightarrow> bool" where
  "wf_db d \<longleftrightarrow> unique_ids d \<and> inv_I3 d \<and> inv_I4 d"

text \<open>The number of stored rows for a pair.\<close>

definition membership_count :: "db \<Rightarrow> string \<Rightarrow> string \<Rightarrow> nat" where
  "membership_count d listId bookmarkId =
     length (filter (\<lambda>m. bil_listId m = listId \<and> bil_bookmarkId m = bookmarkId) (bookmarksInLists d))"

text \<open>The relation between a stored row and the same row after an edit with input \<open>inp\<close>.\<close>

definition edit_frame :: "edit_input \<Rightarrow> bookmarkList \<Rightarrow> bookmarkList \<Rightarrow> bool" where
  "edit_frame inp r r2 \<longleftrightarrow>
     list_id r2 = list_id r \<and> list_userId r2 = list_userId r \<and> list_type r2 = list_type r
     \<and> (edit_name inp = None \<longrightarrow> list_name r2 = list_name r)
     \<and> (edit_icon inp = None \<longrightarrow> list_icon r2 = list_icon r)
     \<and> (edit_parentId inp = Undefined \<longrightarrow> list_parentId r2 = list_parentId r)
     \<and> (edit_query inp = Undefined \<longrightarrow> list_query r2 = list_query r)
     \<and> (list_id r \<noteq> edit_listId inp \<longrightarrow> r2 = r)"

section \<open>Example stores and inputs\<close>

text \<open>Two users; a manual and a smart list of the first; three bookmarks, the third of
  the second user; the first bookmark is in the manual list.\<close>

definition alice :: user where
  "alice = \<lparr>user_id = ''alice''\<rparr>"

definition bob :: user where
  "bob = \<lparr>user_id = ''bob''\<rparr>"

definition reading :: bookmarkList where
  "reading = \<lparr>list_id = ''l1'', list_name = ''Reading'', list_icon = ''book'',
     list_userId = ''alice'', list_parentId = None, list_type = manual, list_query = None\<rparr>"

definition recent :: bookmarkList where
  "recent = \<lparr>list_id = ''l2'', list_name = ''Recent'', list_icon = ''clock'',
     list_userId = ''alice'', list_parentId = None, list_type = smart,
     list_query = Some ''is:fav''\<rparr>"

definition ex_db :: db where
  "ex_db = \<lparr>bookmarkLists = [reading, recent],
     bookmarksInLists = [\<lparr>bil_listId = ''l1'', bil_bookmarkId = ''b1''\<rparr>],
     bookmarks = [\<lparr>bm_id = ''b1'', bm_userId = ''alice''\<rparr>,
                  \<lparr>bm_id = ''b2'', bm_userId = ''alice''\<rparr>,
                  \<lparr>bm_id = ''b3'', bm_userId = ''bob''\<rparr>]\<rparr>"

text \<open>Two edits of the manual list: one gives a query, one gives the empty string as
  the query.\<close>

definition query_edit :: edit_input where
  "query_edit = \<lparr>edit_listId = ''l1'', edit_name = None, edit_icon = None,
     edit_parentId = Undefined, edit_query = Val ''select *''\<rparr>"


text \<open>A new manual list that carries a query.\<close>

definition odd_input :: new_input where
  "odd_input = \<lparr>new_name = ''Odd'', new_icon = ''star'', new_parentId = None,
     new_type = manual, new_query = Some ''select *''\<rparr>"

text \<open>An edit that gives only a new name.\<close>

definition rename_edit :: edit_input where
  "rename_edit = \<lparr>edit_listId = ''l1'', edit_name = Some ''Later'', edit_icon = None,
     edit_parentId = Undefined, edit_query = Undefined\<rparr>"

text \<open>A store that breaks the ownership boundary: a list of the second user holds a
  bookmark of the first.\<close>

definition bobs :: bookmarkList where
  "bobs = \<lparr>list_id = ''l4'', list_name = ''Bobs'', list_icon = ''lock'',
     list_userId = ''bob'', list_parentId = None, list_type = manual, list_query = None\<rparr>"

definition cross_db :: db where
  "cross_db = ex_db\<lparr>bookmarkLists := [reading, recent, bobs],
     bookmarksInLists := [\<lparr>bil_listId = ''l1'', bil_bookmarkId = ''b1''\<rparr>,
                          \<lparr>bil_listId = ''l4'', bil_bookmarkId = ''b1''\<rparr>]\<rparr>"


section \<open>Lookups\<close>

lemma findFirst_None_iff: "findFirst p rows = None \<longleftrightarrow> (\<forall>r \<in> set rows. \<not> p r)"
  by (auto simp: findFirst_def find_None_iff)

lemma findFirst_SomeD: "findFirst p rows = Some r \<Longrightarrow> r \<in> set rows \<and> p r"
  by (auto simp: findFirst_def find_Some_iff)


section \<open>The ownership guard\<close>

text \<open>
  Claim C1. The error of \<^verbatim>\<open>ensureListOwnership\<close> follows the precedence identity, then
  existence, then ownership: with no caller identity it fails \<^verbatim>\<open>UNAUTHORIZED\<close>, whatever
  the store holds; else, when no list has the given id, it fails \<^verbatim>\<open>NOT_FOUND\<close>; else, when
  the list's \<^verbatim>\<open>userId\<close> differs from the caller's id, it fails \<^verbatim>\<open>FORBIDDEN\<close>; otherwise
  the guarded operation runs. A failing guard leaves the store as it is.
\<close>

theorem ensureListOwnership_precedence:
  "(ctx_user c = None \<longrightarrow>
      ensureListOwnership c listId nxt d =
        (Inl (TRPCError UNAUTHORIZED (Some ''User is not authorized'')), d))
   \<and> (ctx_user c = Some u \<and> listId \<notin> list_id ` set (bookmarkLists d) \<longrightarrow>
      ensureListOwnership c listId nxt d =
        (Inl (TRPCError NOT_FOUND (Some ''List not found'')), d))
   \<and> (ctx_user c = Some u \<and> findFirst (\<lambda>r. list_id r = listId) (bookmarkLists d) = Some l
        \<and> list_userId l \<noteq> user_id u \<longrightarrow>
      ensureListOwnership c listId nxt d =
        (Inl (TRPCError FORBIDDEN (Some ''User is not allowed to access resource'')), d))
   \<and> (ctx_user c = Some u \<and> findFirst (\<lambda>r. list_id r = listId) (bookmarkLists d) = Some l
        \<and> list_userId l = user_id u \<longrightarrow>
      ensureListOwnership c listId nxt d = nxt d)"
proof -
  have nf: "findFirst (\<lambda>r. list_id r = listId) (bookmarkLists d) = None"
    if "listId \<notin> list_id ` set (bookmarkLists d)"
    using that by (auto simp: findFirst_None_iff)
  show ?thesis
    by (auto simp: ensureListOwnership_def nf)
qed

theorem ensureListOwnership_precedence_witness:
  "ensureListOwnership \<lparr>ctx_user = None\<rparr> ''l1'' proceed ex_db =
     (Inl (TRPCError UNAUTHORIZED (Some ''User is not authorized'')), ex_db)
   \<and> ensureListOwnership \<lparr>ctx_user = None\<rparr> ''l9'' proceed ex_db =
     (Inl (TRPCError UNAUTHORIZED (Some ''User is not authorized'')), ex_db)
   \<and> ensureListOwnership \<lparr>ctx_user = Some alice\<rparr> ''l9'' proceed ex_db =
     (Inl (TRPCError NOT_FOUND (Some ''List not found'')), ex_db)
   \<and> ensureListOwnership \<lparr>ctx_user = Some bob\<rparr> ''l1'' proceed ex_db =
     (Inl (TRPCError FORBIDDEN (Some ''User is not allowed to access resource'')), ex_db)
   \<and> ensureListOwnership \<lparr>ctx_user = Some alice\<rparr> ''l1'' proceed ex_db = (Inr (), ex_db)"
  using
    ensureListOwnership_precedence [where c = "\<lparr>ctx_user = None\<rparr>" and u = alice and listId = "''l1''" and d = ex_db and nxt = proceed and l = reading]
    ensureListOwnership_precedence [where c = "\<lparr>ctx_user = None\<rparr>" and u = alice and listId = "''l9''" and d = ex_db and nxt = proceed and l = reading]
    ensureListOwnership_precedence [where c = "\<lparr>ctx_user = Some alice\<rparr>" and u = alice and listId = "''l9''" and d = ex_db and nxt = proceed and l = reading]
    ensureListOwnership_precedence [where c = "\<lparr>ctx_user = Some bob\<rparr>" and u = bob and listId = "''l1''" and d = ex_db and nxt = proceed and l = reading]
    ensureListOwnership_precedence [where c = "\<lparr>ctx_user = Some alice\<rparr>" and u = alice and listId = "''l1''" and d = ex_db and nxt = proceed and l = reading]
  by (simp add: ex_db_def reading_def recent_def alice_def bob_def findFirst_def proceed_def)

section \<open>Passing the guards\<close>

lemma findFirst_conj:
  "findFirst p rows = Some r \<Longrightarrow> q r \<Longrightarrow> findFirst (\<lambda>x. p x \<and> q x) rows = Some r"
  unfolding findFirst_def
  by (induction rows) (auto split: if_splits)

lemma bookmarkInList_eq:
  "(bil_listId (m :: bookmarkInList) = a \<and> bil_bookmarkId m = b)
     \<longleftrightarrow> m = \<lparr>bil_listId = a, bil_bookmarkId = b\<rparr>"
  by (cases m) auto

lemma passes_list_guardD:
  assumes "passes_list_guard c listId d"
  obtains u l where "ctx_user c = Some u"
    and "findFirst (\<lambda>r. list_id r = listId) (bookmarkLists d) = Some l"
    and "list_userId l = user_id u"
  using assms
  by (auto simp: passes_list_guard_def ensureListOwnership_def proceed_def
      split: option.splits if_splits)

lemma passes_list_guard_run:
  "passes_list_guard c listId d \<Longrightarrow> ensureListOwnership c listId k d = k d"
  by (auto simp: passes_list_guard_def ensureListOwnership_def proceed_def
      split: option.splits if_splits)

lemma passes_bookmark_guardD:
  assumes "passes_bookmark_guard c bookmarkId d"
  obtains u b where "ctx_user c = Some u"
    and "findFirst (\<lambda>b. bm_id b = bookmarkId) (bookmarks d) = Some b"
    and "bm_userId b = user_id u"
  using assms
  by (auto simp: passes_bookmark_guard_def ensureBookmarkOwnership_def proceed_def
      split: option.splits if_splits)

lemma passes_bookmark_guard_run:
  "passes_bookmark_guard c bookmarkId d \<Longrightarrow> ensureBookmarkOwnership c bookmarkId k d = k d"
  by (auto simp: passes_bookmark_guard_def ensureBookmarkOwnership_def proceed_def
      split: option.splits if_splits)

lemma authedProcedure_run:
  "ctx_user c = Some u \<Longrightarrow> authedProcedure c body d = body u d"
  by (simp add: authedProcedure_def)

text \<open>The list the guard found is the list the handlers read again with the predicate on
  id and owner.\<close>

lemma owned_list_found:
  assumes "findFirst (\<lambda>r. list_id r = listId) (bookmarkLists d) = Some l"
    and "list_userId l = user_id u"
  shows "findFirst (\<lambda>r. list_id r = listId \<and> list_userId r = user_id u) (bookmarkLists d) = Some l"
  using assms by (rule findFirst_conj)

section \<open>edit: a manual list takes no query\<close>

text \<open>
  The check of lines 74 to 89 on a query that is a non-empty string: for a list whose stored
  type is manual and a caller that passes the ownership guard, \<^verbatim>\<open>edit\<close> fails
  \<^verbatim>\<open>BAD_REQUEST\<close> ("Manual lists cannot have a query") and leaves the whole store, so every
  stored field of the list, unchanged.
\<close>

lemma edit_manual_query_rejected:
  assumes "passes_list_guard c (edit_listId inp) d"
    and "findFirst (\<lambda>r. list_id r = edit_listId inp) (bookmarkLists d) = Some L"
    and "list_type L = manual"
    and "edit_query inp = Val q" and "q \<noteq> []"
  shows "edit c inp d = (Inl (TRPCError BAD_REQUEST (Some ''Manual lists cannot have a query'')), d)"
proof -
  from assms(1) obtain u l where u: "ctx_user c = Some u"
    and l: "findFirst (\<lambda>r. list_id r = edit_listId inp) (bookmarkLists d) = Some l"
    and own: "list_userId l = user_id u"
    by (rule passes_list_guardD)
  from l assms(2) have "l = L" by simp
  with l own have found:
    "findFirst (\<lambda>r. list_id r = edit_listId inp \<and> list_userId r = user_id u) (bookmarkLists d) = Some L"
    by (simp add: owned_list_found)
  have "edit_check u inp d = Some (TRPCError BAD_REQUEST (Some ''Manual lists cannot have a query''))"
    using assms(3-5) found by (simp add: edit_check_def)
  then have "edit_mutation u inp d =
      (Inl (TRPCError BAD_REQUEST (Some ''Manual lists cannot have a query'')), d)"
    by (simp add: edit_mutation_def)
  then show ?thesis
    using u assms(1) by (simp add: edit_def authedProcedure_run passes_list_guard_run)
qed

lemma edit_manual_query_rejected_example:
  "edit \<lparr>ctx_user = Some alice\<rparr> query_edit ex_db =
     (Inl (TRPCError BAD_REQUEST (Some ''Manual lists cannot have a query'')), ex_db)"
proof -
  have 1: "passes_list_guard \<lparr>ctx_user = Some alice\<rparr> (edit_listId query_edit) ex_db"
    by (simp add: passes_list_guard_def ensureListOwnership_def proceed_def findFirst_def
      ex_db_def reading_def recent_def alice_def query_edit_def)
  have 2: "findFirst (\<lambda>r. list_id r = edit_listId query_edit) (bookmarkLists ex_db) = Some reading"
    by (simp add: findFirst_def ex_db_def reading_def recent_def query_edit_def)
  have 3: "list_type reading = manual" by (simp add: reading_def)
  have 4: "edit_query query_edit = Val ''select *''" by (simp add: query_edit_def)
  have 5: "''select *'' \<noteq> []" by simp
  show ?thesis
    by (rule edit_manual_query_rejected [OF 1 2 3 4 5])
qed


section \<open>Running the membership handlers\<close>

lemma filter_none_id: "(\<forall>x \<in> set xs. \<not> p x) \<Longrightarrow> filter (\<lambda>x. \<not> p x) xs = xs"
  by (induction xs) auto

lemma db_memberships_same:
  "ms = bookmarksInLists d \<Longrightarrow> d\<lparr>bookmarksInLists := ms\<rparr> = d"
  by simp


lemma removeFromList_mutation_absent:
  assumes "\<forall>m \<in> set (bookmarksInLists d). \<not> (bil_listId m = listId \<and> bil_bookmarkId m = bookmarkId)"
  shows "removeFromList_mutation u listId bookmarkId d =
    (Inl (TRPCError BAD_REQUEST
       (Some (''Bookmark '' @ bookmarkId @ '' is already not in list '' @ listId))), d)"
proof -
  have f: "filter (\<lambda>m. \<not> (bil_listId m = listId \<and> bil_bookmarkId m = bookmarkId)) (bookmarksInLists d)
             = bookmarksInLists d"
    using assms by (rule filter_none_id)
  have z: "filter (\<lambda>m. bil_listId m = listId \<and> bil_bookmarkId m = bookmarkId) (bookmarksInLists d) = []"
    using assms by (auto simp: filter_empty_conv)
  show ?thesis
    unfolding removeFromList_mutation_def delete_bookmarksInLists_def
    by (simp only: f z db_memberships_same[OF refl]) simp
qed

lemma addToList_run:
  assumes "passes_list_guard c listId d" and "passes_bookmark_guard c bookmarkId d"
    and "ctx_user c = Some u"
  shows "addToList c fault listId bookmarkId d = addToList_mutation fault u listId bookmarkId d"
  using assms
  by (simp add: addToList_def authedProcedure_run passes_list_guard_run passes_bookmark_guard_run)

lemma removeFromList_run:
  assumes "passes_list_guard c listId d" and "passes_bookmark_guard c bookmarkId d"
    and "ctx_user c = Some u"
  shows "removeFromList c listId bookmarkId d = removeFromList_mutation u listId bookmarkId d"
  using assms
  by (simp add: removeFromList_def authedProcedure_run passes_list_guard_run passes_bookmark_guard_run)

section \<open>addToList: what the insert does\<close>

lemma membership_count_eq:
  "membership_count d listId bookmarkId =
     length (filter (\<lambda>m. m = \<lparr>bil_listId = listId, bil_bookmarkId = bookmarkId\<rparr>) (bookmarksInLists d))"
  by (simp add: membership_count_def bookmarkInList_eq)

lemma distinct_count_one:
  "distinct xs \<Longrightarrow> x \<in> set xs \<Longrightarrow> length (filter (\<lambda>y. y = x) xs) = 1"
  by (induction xs) (auto simp: filter_empty_conv)

lemma absent_count_zero:
  "x \<notin> set xs \<Longrightarrow> length (filter (\<lambda>y. y = x) xs) = 0"
  by (induction xs) auto

lemma insert_bookmarksInLists_InrD:
  assumes "insert_bookmarksInLists fault row d = Inr d'"
  shows "fault = None" and "row \<notin> set (bookmarksInLists d)"
    and "d' = d\<lparr>bookmarksInLists := bookmarksInLists d @ [row]\<rparr>"
  using assms by (auto simp: insert_bookmarksInLists_def split: option.splits if_splits)

lemma addToList_mutation_manual:
  assumes "findFirst (\<lambda>r. list_id r = listId \<and> list_userId r = user_id u) (bookmarkLists d) = Some L"
    and "list_type L = manual"
  shows "addToList_mutation fault u listId bookmarkId d =
     (case insert_bookmarksInLists fault \<lparr>bil_listId = listId, bil_bookmarkId = bookmarkId\<rparr> d of
        Inr d' \<Rightarrow> (Inr (), d')
      | Inl e \<Rightarrow>
          if e = SqliteError ''SQLITE_CONSTRAINT_PRIMARYKEY''
          then (Inl (TRPCError BAD_REQUEST
                  (Some (''Bookmark '' @ bookmarkId @ '' is already in the list '' @ listId))), d)
          else (Inl (TRPCError INTERNAL_SERVER_ERROR (Some ''Something went wrong'')), d))"
  using assms
  by (simp add: addToList_mutation_def split: sum.splits error.splits)

text \<open>
  Claim C4. For every \<^verbatim>\<open>addToList\<close> call that passes both guards and the check of the
  manual type: when the insert fails with the signal of the key (\<^verbatim>\<open>SQLITE_CONSTRAINT_PRIMARYKEY\<close>)
  the call fails \<^verbatim>\<open>BAD_REQUEST\<close> ("already in the list") and the store is unchanged, and when
  the signal reports a stored pair the number of rows of the pair is 1 before and after; any
  other failure of the insert is surfaced as \<^verbatim>\<open>INTERNAL_SERVER_ERROR\<close>; a successful insert
  appends exactly the row \<^verbatim>\<open>(listId, bookmarkId)\<close>, which was not there and is there once
  afterwards.
\<close>

theorem addToList_insert_outcomes:
  assumes lg: "passes_list_guard c listId d"
    and bg: "passes_bookmark_guard c bookmarkId d"
    and L: "findFirst (\<lambda>r. list_id r = listId) (bookmarkLists d) = Some L"
    and manual: "list_type L = manual"
    and row: "row = \<lparr>bil_listId = listId, bil_bookmarkId = bookmarkId\<rparr>"
  shows
    "(insert_bookmarksInLists fault row d = Inl (SqliteError ''SQLITE_CONSTRAINT_PRIMARYKEY'') \<longrightarrow>
        addToList c fault listId bookmarkId d =
          (Inl (TRPCError BAD_REQUEST
             (Some (''Bookmark '' @ bookmarkId @ '' is already in the list '' @ listId))), d))
     \<and> (fault = None \<and> row \<in> set (bookmarksInLists d) \<and> inv_I3 d \<longrightarrow>
        insert_bookmarksInLists fault row d = Inl (SqliteError ''SQLITE_CONSTRAINT_PRIMARYKEY'')
        \<and> membership_count d listId bookmarkId = 1
        \<and> membership_count (snd (addToList c fault listId bookmarkId d)) listId bookmarkId = 1)
     \<and> (insert_bookmarksInLists fault row d = Inl e
          \<and> e \<noteq> SqliteError ''SQLITE_CONSTRAINT_PRIMARYKEY'' \<longrightarrow>
        addToList c fault listId bookmarkId d =
          (Inl (TRPCError INTERNAL_SERVER_ERROR (Some ''Something went wrong'')), d))
     \<and> (insert_bookmarksInLists fault row d = Inr d' \<longrightarrow>
        addToList c fault listId bookmarkId d = (Inr (), d')
        \<and> bookmarksInLists d' = bookmarksInLists d @ [row]
        \<and> bookmarkLists d' = bookmarkLists d \<and> bookmarks d' = bookmarks d
        \<and> membership_count d listId bookmarkId = 0
        \<and> membership_count d' listId bookmarkId = 1)"
proof -
  from lg obtain u l where u: "ctx_user c = Some u"
    and l: "findFirst (\<lambda>r. list_id r = listId) (bookmarkLists d) = Some l"
    and own: "list_userId l = user_id u"
    by (rule passes_list_guardD)
  from l L have "l = L" by simp
  with l own have found:
    "findFirst (\<lambda>r. list_id r = listId \<and> list_userId r = user_id u) (bookmarkLists d) = Some L"
    by (simp add: owned_list_found)
  note run = addToList_run [OF lg bg u, of fault] addToList_mutation_manual [OF found manual, of fault bookmarkId]
  have dup: "addToList c fault listId bookmarkId d =
          (Inl (TRPCError BAD_REQUEST
             (Some (''Bookmark '' @ bookmarkId @ '' is already in the list '' @ listId))), d)"
    if "insert_bookmarksInLists fault row d = Inl (SqliteError ''SQLITE_CONSTRAINT_PRIMARYKEY'')"
    using that by (simp add: run row [symmetric])
  have other: "addToList c fault listId bookmarkId d =
          (Inl (TRPCError INTERNAL_SERVER_ERROR (Some ''Something went wrong'')), d)"
    if "insert_bookmarksInLists fault row d = Inl e" "e \<noteq> SqliteError ''SQLITE_CONSTRAINT_PRIMARYKEY''"
    using that by (simp add: run row [symmetric])
  have count: "insert_bookmarksInLists fault row d = Inl (SqliteError ''SQLITE_CONSTRAINT_PRIMARYKEY'')
        \<and> membership_count d listId bookmarkId = 1
        \<and> membership_count (snd (addToList c fault listId bookmarkId d)) listId bookmarkId = 1"
    if "fault = None" "row \<in> set (bookmarksInLists d)" "inv_I3 d"
  proof -
    have i: "insert_bookmarksInLists fault row d = Inl (SqliteError ''SQLITE_CONSTRAINT_PRIMARYKEY'')"
      using that(1,2) by (simp add: insert_bookmarksInLists_def)
    have one: "membership_count d listId bookmarkId = 1"
      using that(2,3) by (simp add: membership_count_eq row [symmetric] inv_I3_def distinct_count_one)
    from dup [OF i] one i show ?thesis by simp
  qed
  have ok: "addToList c fault listId bookmarkId d = (Inr (), d')
        \<and> bookmarksInLists d' = bookmarksInLists d @ [row]
        \<and> bookmarkLists d' = bookmarkLists d \<and> bookmarks d' = bookmarks d
        \<and> membership_count d listId bookmarkId = 0
        \<and> membership_count d' listId bookmarkId = 1"
    if i: "insert_bookmarksInLists fault row d = Inr d'"
  proof -
    note D = insert_bookmarksInLists_InrD [OF i]
    have "addToList c fault listId bookmarkId d = (Inr (), d')"
      using i by (simp add: run row [symmetric])
    moreover have "membership_count d listId bookmarkId = 0"
      using D(2) by (simp add: membership_count_eq row [symmetric] absent_count_zero)
    moreover have "membership_count d' listId bookmarkId = 1"
      using D(2) by (simp add: membership_count_eq row [symmetric] D(3) absent_count_zero)
    ultimately show ?thesis by (simp add: D(3))
  qed
  from dup count other ok show ?thesis by blast
qed

theorem addToList_insert_outcomes_witness:
  "addToList \<lparr>ctx_user = Some alice\<rparr> None ''l1'' ''b1'' ex_db =
      (Inl (TRPCError BAD_REQUEST (Some ''Bookmark b1 is already in the list l1'')), ex_db)
   \<and> membership_count ex_db ''l1'' ''b1'' = 1
   \<and> membership_count (snd (addToList \<lparr>ctx_user = Some alice\<rparr> None ''l1'' ''b1'' ex_db)) ''l1'' ''b1'' = 1
   \<and> addToList \<lparr>ctx_user = Some alice\<rparr> (Some (SqliteError ''SQLITE_BUSY'')) ''l1'' ''b2'' ex_db =
      (Inl (TRPCError INTERNAL_SERVER_ERROR (Some ''Something went wrong'')), ex_db)
   \<and> addToList \<lparr>ctx_user = Some alice\<rparr> None ''l1'' ''b2'' ex_db =
      (Inr (), ex_db\<lparr>bookmarksInLists :=
         [\<lparr>bil_listId = ''l1'', bil_bookmarkId = ''b1''\<rparr>, \<lparr>bil_listId = ''l1'', bil_bookmarkId = ''b2''\<rparr>]\<rparr>)
   \<and> membership_count (ex_db\<lparr>bookmarksInLists :=
         [\<lparr>bil_listId = ''l1'', bil_bookmarkId = ''b1''\<rparr>, \<lparr>bil_listId = ''l1'', bil_bookmarkId = ''b2''\<rparr>]\<rparr>)
        ''l1'' ''b2'' = 1"
proof -
  let ?c = "\<lparr>ctx_user = Some alice\<rparr>"
  let ?d2 = "ex_db\<lparr>bookmarksInLists :=
         [\<lparr>bil_listId = ''l1'', bil_bookmarkId = ''b1''\<rparr>, \<lparr>bil_listId = ''l1'', bil_bookmarkId = ''b2''\<rparr>]\<rparr>"
  have lg: "passes_list_guard ?c ''l1'' ex_db"
    by (simp add: passes_list_guard_def ensureListOwnership_def proceed_def findFirst_def
      ex_db_def reading_def recent_def alice_def)
  have b1: "passes_bookmark_guard ?c ''b1'' ex_db"
    by (simp add: passes_bookmark_guard_def ensureBookmarkOwnership_def proceed_def findFirst_def
      ex_db_def alice_def)
  have b2: "passes_bookmark_guard ?c ''b2'' ex_db"
    by (simp add: passes_bookmark_guard_def ensureBookmarkOwnership_def proceed_def findFirst_def
      ex_db_def alice_def)
  have L: "findFirst (\<lambda>r. list_id r = ''l1'') (bookmarkLists ex_db) = Some reading"
    by (simp add: findFirst_def ex_db_def reading_def recent_def)
  have m: "list_type reading = manual" by (simp add: reading_def)
  have i1: "insert_bookmarksInLists None \<lparr>bil_listId = ''l1'', bil_bookmarkId = ''b1''\<rparr> ex_db
      = Inl (SqliteError ''SQLITE_CONSTRAINT_PRIMARYKEY'')"
    by (simp add: insert_bookmarksInLists_def ex_db_def)
  have h2: "None = (None :: error option)
      \<and> \<lparr>bil_listId = ''l1'', bil_bookmarkId = ''b1''\<rparr> \<in> set (bookmarksInLists ex_db) \<and> inv_I3 ex_db"
    by (simp add: ex_db_def inv_I3_def)
  have i3: "insert_bookmarksInLists (Some (SqliteError ''SQLITE_BUSY''))
        \<lparr>bil_listId = ''l1'', bil_bookmarkId = ''b2''\<rparr> ex_db = Inl (SqliteError ''SQLITE_BUSY'')
      \<and> SqliteError ''SQLITE_BUSY'' \<noteq> SqliteError ''SQLITE_CONSTRAINT_PRIMARYKEY''"
    by (simp add: insert_bookmarksInLists_def)
  have i4: "insert_bookmarksInLists None \<lparr>bil_listId = ''l1'', bil_bookmarkId = ''b2''\<rparr> ex_db = Inr ?d2"
    by (simp add: insert_bookmarksInLists_def ex_db_def)
  note t1 = addToList_insert_outcomes [OF lg b1 L m refl, of None]
  note t2 = addToList_insert_outcomes [OF lg b2 L m refl]
  from t1 [THEN conjunct1, rule_format, OF i1]
    t1 [THEN conjunct2, THEN conjunct1, rule_format, OF h2]
    t2 [of "Some (SqliteError ''SQLITE_BUSY'')", THEN conjunct2, THEN conjunct2, THEN conjunct1, rule_format, OF i3]
    t2 [of None _ ?d2, THEN conjunct2, THEN conjunct2, THEN conjunct2, rule_format, OF i4]
  show ?thesis by simp
qed

section \<open>removeFromList\<close>

lemma filter_neq_removeAll: "filter (\<lambda>m. \<not> (m = x)) xs = removeAll x xs"
  by (induction xs) auto

lemma removeAll_absent: "x \<notin> set xs \<Longrightarrow> removeAll x xs = xs"
  by (induction xs) auto

lemma removeFromList_mutation_eq:
  "removeFromList_mutation u listId bookmarkId d =
    (if \<lparr>bil_listId = listId, bil_bookmarkId = bookmarkId\<rparr> \<in> set (bookmarksInLists d)
     then (Inr (), d\<lparr>bookmarksInLists :=
             removeAll \<lparr>bil_listId = listId, bil_bookmarkId = bookmarkId\<rparr> (bookmarksInLists d)\<rparr>)
     else (Inl (TRPCError BAD_REQUEST
            (Some (''Bookmark '' @ bookmarkId @ '' is already not in list '' @ listId))), d))"
  by (auto simp: removeFromList_mutation_def delete_bookmarksInLists_def bookmarkInList_eq
      filter_neq_removeAll filter_empty_conv removeAll_absent)

text \<open>
  Claim C5. For every \<^verbatim>\<open>removeFromList\<close> call that passes both guards: when the pair is not
  stored the call fails \<^verbatim>\<open>BAD_REQUEST\<close> (not \<^verbatim>\<open>NOT_FOUND\<close>) with the message that the
  bookmark is already not in the list, and the store is unchanged; when the pair is stored
  the call succeeds and the only change of the store is that the rows of the pair are gone,
  which under invariant I3 is exactly one row.
\<close>

theorem removeFromList_outcomes:
  assumes lg: "passes_list_guard c listId d"
    and bg: "passes_bookmark_guard c bookmarkId d"
    and row: "row = \<lparr>bil_listId = listId, bil_bookmarkId = bookmarkId\<rparr>"
  shows
    "(row \<notin> set (bookmarksInLists d) \<longrightarrow>
        removeFromList c listId bookmarkId d =
          (Inl (TRPCError BAD_REQUEST
             (Some (''Bookmark '' @ bookmarkId @ '' is already not in list '' @ listId))), d))
     \<and> (row \<in> set (bookmarksInLists d) \<longrightarrow>
        removeFromList c listId bookmarkId d =
          (Inr (), d\<lparr>bookmarksInLists := removeAll row (bookmarksInLists d)\<rparr>)
        \<and> (inv_I3 d \<longrightarrow>
             removeAll row (bookmarksInLists d) = remove1 row (bookmarksInLists d)
             \<and> length (removeAll row (bookmarksInLists d)) + 1 = length (bookmarksInLists d)))"
proof -
  from lg obtain u where u: "ctx_user c = Some u"
    by (rule passes_list_guardD)
  have one: "removeAll row (bookmarksInLists d) = remove1 row (bookmarksInLists d)
             \<and> length (removeAll row (bookmarksInLists d)) + 1 = length (bookmarksInLists d)"
    if "row \<in> set (bookmarksInLists d)" "inv_I3 d"
  proof -
    from that(2) have eq: "removeAll row (bookmarksInLists d) = remove1 row (bookmarksInLists d)"
      by (simp add: inv_I3_def distinct_remove1_removeAll)
    from that(1) have "0 < length (bookmarksInLists d)"
      by (rule length_pos_if_in_set)
    with that(1) have "length (remove1 row (bookmarksInLists d)) + 1 = length (bookmarksInLists d)"
      by (simp add: length_remove1)
    with eq show ?thesis by simp
  qed
  have run: "removeFromList c listId bookmarkId d =
    (if row \<in> set (bookmarksInLists d)
     then (Inr (), d\<lparr>bookmarksInLists := removeAll row (bookmarksInLists d)\<rparr>)
     else (Inl (TRPCError BAD_REQUEST
            (Some (''Bookmark '' @ bookmarkId @ '' is already not in list '' @ listId))), d))"
    unfolding row by (simp only: removeFromList_run [OF lg bg u] removeFromList_mutation_eq)
  show ?thesis
  proof (intro conjI impI)
    assume "row \<notin> set (bookmarksInLists d)"
    then show "removeFromList c listId bookmarkId d =
          (Inl (TRPCError BAD_REQUEST
             (Some (''Bookmark '' @ bookmarkId @ '' is already not in list '' @ listId))), d)"
      by (simp add: run)
  next
    assume "row \<in> set (bookmarksInLists d)"
    then show "removeFromList c listId bookmarkId d =
          (Inr (), d\<lparr>bookmarksInLists := removeAll row (bookmarksInLists d)\<rparr>)"
      by (simp add: run)
  next
    assume "row \<in> set (bookmarksInLists d)" "inv_I3 d"
    then show "removeAll row (bookmarksInLists d) = remove1 row (bookmarksInLists d)"
      using one by blast
  next
    assume "row \<in> set (bookmarksInLists d)" "inv_I3 d"
    then show "length (removeAll row (bookmarksInLists d)) + 1 = length (bookmarksInLists d)"
      using one by blast
  qed
qed

theorem removeFromList_outcomes_witness:
  "removeFromList \<lparr>ctx_user = Some alice\<rparr> ''l1'' ''b2'' ex_db =
      (Inl (TRPCError BAD_REQUEST (Some ''Bookmark b2 is already not in list l1'')), ex_db)
   \<and> removeFromList \<lparr>ctx_user = Some alice\<rparr> ''l1'' ''b1'' ex_db =
      (Inr (), ex_db\<lparr>bookmarksInLists := []\<rparr>)
   \<and> length (bookmarksInLists (ex_db\<lparr>bookmarksInLists := []\<rparr>)) + 1 = length (bookmarksInLists ex_db)"
proof -
  let ?c = "\<lparr>ctx_user = Some alice\<rparr>"
  have lg: "passes_list_guard ?c ''l1'' ex_db"
    by (simp add: passes_list_guard_def ensureListOwnership_def proceed_def findFirst_def
      ex_db_def reading_def recent_def alice_def)
  have b1: "passes_bookmark_guard ?c ''b1'' ex_db"
    by (simp add: passes_bookmark_guard_def ensureBookmarkOwnership_def proceed_def findFirst_def
      ex_db_def alice_def)
  have b2: "passes_bookmark_guard ?c ''b2'' ex_db"
    by (simp add: passes_bookmark_guard_def ensureBookmarkOwnership_def proceed_def findFirst_def
      ex_db_def alice_def)
  have h1: "\<lparr>bil_listId = ''l1'', bil_bookmarkId = ''b2''\<rparr> \<notin> set (bookmarksInLists ex_db)"
    by (simp add: ex_db_def)
  have h2: "\<lparr>bil_listId = ''l1'', bil_bookmarkId = ''b1''\<rparr> \<in> set (bookmarksInLists ex_db)"
    by (simp add: ex_db_def)
  have h3: "inv_I3 ex_db" by (simp add: inv_I3_def ex_db_def)
  have r: "removeAll \<lparr>bil_listId = ''l1'', bil_bookmarkId = ''b1''\<rparr> (bookmarksInLists ex_db) = []"
    by (simp add: ex_db_def)
  from removeFromList_outcomes [OF lg b2 refl, THEN conjunct1, rule_format, OF h1]
    removeFromList_outcomes [OF lg b1 refl, THEN conjunct2, rule_format, OF h2]
    h3 r
  show ?thesis by simp
qed

section \<open>Membership of a smart list\<close>




section \<open>delete\<close>

lemma delete_run:
  assumes "passes_list_guard c listId d" and "ctx_user c = Some u"
  shows "delete c listId d = delete_mutation u listId d"
  using assms by (simp add: delete_def authedProcedure_run passes_list_guard_run)

lemma guard_fails_or_runs:
  "(\<exists>e. ensureListOwnership c listId k d = (Inl e, d)) \<or> ensureListOwnership c listId k d = k d"
  by (auto simp: ensureListOwnership_def split: option.splits)

lemma bookmark_guard_fails_or_runs:
  "(\<exists>e. ensureBookmarkOwnership c bookmarkId k d = (Inl e, d))
     \<or> ensureBookmarkOwnership c bookmarkId k d = k d"
  by (auto simp: ensureBookmarkOwnership_def split: option.splits)

lemma authed_fails_or_runs:
  "(\<exists>e. authedProcedure c body d = (Inl e, d)) \<or> (\<exists>u. ctx_user c = Some u \<and> authedProcedure c body d = body u d)"
  by (auto simp: authedProcedure_def split: option.splits)

lemma delete_success_is_mutation:
  assumes "delete c listId d = (Inr x, d')"
  obtains u where "ctx_user c = Some u" and "delete_mutation u listId d = (Inr x, d')"
  using assms authed_fails_or_runs [of c "\<lambda>u. ensureListOwnership c listId (delete_mutation u listId)" d]
    guard_fails_or_runs [of c listId _ d]
  unfolding delete_def by (metis Inl_Inr_False prod.inject)

lemma delete_mutation_success:
  assumes "delete_mutation u listId d = (Inr x, d')"
  shows "bookmarksInLists d' = filter (\<lambda>m. bil_listId m \<noteq> listId) (bookmarksInLists d)"
    and "bookmarkLists d' = filter (\<lambda>r. \<not> (list_id r = listId \<and> list_userId r = user_id u)) (bookmarkLists d)"
    and "bookmarks d' = bookmarks d"
proof -
  let ?p = "\<lambda>r. list_id r = listId \<and> list_userId r = user_id u"
  from assms have ne: "filter ?p (bookmarkLists d) \<noteq> []"
    and d': "d' = snd (delete_bookmarkLists ?p d)"
    by (auto simp: delete_mutation_def delete_bookmarkLists_def Let_def split: if_splits)
  have gone: "set (map list_id (filter ?p (bookmarkLists d))) = {listId}"
    using ne by (auto simp: filter_empty_conv)
  show "bookmarksInLists d' = filter (\<lambda>m. bil_listId m \<noteq> listId) (bookmarksInLists d)"
    unfolding d' delete_bookmarkLists_def Let_def by (simp only: gone) simp
  show "bookmarkLists d' = filter (\<lambda>r. \<not> ?p r) (bookmarkLists d)"
    unfolding d' delete_bookmarkLists_def Let_def by simp
  show "bookmarks d' = bookmarks d"
    unfolding d' delete_bookmarkLists_def Let_def by simp
qed

text \<open>
  Claim C6. After a successful \<^verbatim>\<open>delete\<close> of the list with identifier \<open>listId\<close>, no
  membership row that references \<open>listId\<close> remains in the store (a query for them finds
  nothing), and the rows of the other lists are all kept.
\<close>

theorem delete_cascades_memberships:
  assumes "delete c listId d = (Inr (), d')"
  shows "(\<forall>m \<in> set (bookmarksInLists d'). bil_listId m \<noteq> listId)
    \<and> findMany (\<lambda>m. bil_listId m = listId) (bookmarksInLists d') = []
    \<and> bookmarksInLists d' = filter (\<lambda>m. bil_listId m \<noteq> listId) (bookmarksInLists d)"
proof -
  from assms obtain u where "delete_mutation u listId d = (Inr (), d')"
    by (rule delete_success_is_mutation)
  then have "bookmarksInLists d' = filter (\<lambda>m. bil_listId m \<noteq> listId) (bookmarksInLists d)"
    by (rule delete_mutation_success)
  then show ?thesis
    by (simp add: findMany_def filter_empty_conv)
qed

theorem delete_cascades_memberships_witness:
  "delete \<lparr>ctx_user = Some alice\<rparr> ''l1'' ex_db =
      (Inr (), ex_db\<lparr>bookmarkLists := [recent], bookmarksInLists := []\<rparr>)
   \<and> bookmarksInLists ex_db = [\<lparr>bil_listId = ''l1'', bil_bookmarkId = ''b1''\<rparr>]
   \<and> findMany (\<lambda>m. bil_listId m = ''l1'')
        (bookmarksInLists (ex_db\<lparr>bookmarkLists := [recent], bookmarksInLists := []\<rparr>)) = []"
proof -
  have run: "delete \<lparr>ctx_user = Some alice\<rparr> ''l1'' ex_db =
      (Inr (), ex_db\<lparr>bookmarkLists := [recent], bookmarksInLists := []\<rparr>)"
    by (simp add: delete_def authedProcedure_def ensureListOwnership_def findFirst_def
        delete_mutation_def delete_bookmarkLists_def ex_db_def reading_def recent_def alice_def)
  from delete_cascades_memberships [OF run] run show ?thesis
    by (simp add: ex_db_def)
qed

lemma delete_mutation_none:
  assumes "\<forall>r \<in> set (bookmarkLists d). \<not> (list_id r = listId \<and> list_userId r = user_id u)"
  shows "delete_mutation u listId d = (Inl (TRPCError NOT_FOUND None), d)"
proof -
  let ?p = "\<lambda>r. list_id r = listId \<and> list_userId r = user_id u"
  have z: "filter ?p (bookmarkLists d) = []"
    using assms by (auto simp: filter_empty_conv)
  have f: "filter (\<lambda>r. \<not> ?p r) (bookmarkLists d) = bookmarkLists d"
    using assms by (rule filter_none_id)
  show ?thesis
    unfolding delete_mutation_def delete_bookmarkLists_def Let_def
    by (simp only: z f) simp
qed

text \<open>
  Claim C7. A \<^verbatim>\<open>delete\<close> call that passes the ownership guard runs the mutation, which
  deletes with the predicate on id and owner. The guard's read and the mutation are not
  atomic, so the mutation is taken in any store \<open>d\<close>: when no row of \<open>d\<close> matches id and
  owner (zero rows affected) it fails \<^verbatim>\<open>NOT_FOUND\<close> and changes nothing; otherwise it succeeds
  and removes exactly the rows that match id and owner.
\<close>

theorem delete_zero_rows_not_found:
  assumes "passes_list_guard c listId d0" and "ctx_user c = Some u"
  shows "delete c listId d0 = delete_mutation u listId d0
    \<and> ((\<forall>r \<in> set (bookmarkLists d). \<not> (list_id r = listId \<and> list_userId r = user_id u)) \<longrightarrow>
          delete_mutation u listId d = (Inl (TRPCError NOT_FOUND None), d))
    \<and> ((\<exists>r \<in> set (bookmarkLists d). list_id r = listId \<and> list_userId r = user_id u) \<longrightarrow>
          fst (delete_mutation u listId d) = Inr ()
          \<and> bookmarkLists (snd (delete_mutation u listId d)) =
              filter (\<lambda>r. \<not> (list_id r = listId \<and> list_userId r = user_id u)) (bookmarkLists d))"
proof (intro conjI impI)
  show "delete c listId d0 = delete_mutation u listId d0"
    using assms by (rule delete_run)
next
  assume "\<forall>r \<in> set (bookmarkLists d). \<not> (list_id r = listId \<and> list_userId r = user_id u)"
  then show "delete_mutation u listId d = (Inl (TRPCError NOT_FOUND None), d)"
    by (rule delete_mutation_none)
next
  assume ex: "\<exists>r \<in> set (bookmarkLists d). list_id r = listId \<and> list_userId r = user_id u"
  then have "filter (\<lambda>r. list_id r = listId \<and> list_userId r = user_id u) (bookmarkLists d) \<noteq> []"
    by (auto simp: filter_empty_conv)
  then show "fst (delete_mutation u listId d) = Inr ()"
    by (simp add: delete_mutation_def delete_bookmarkLists_def Let_def)
  show "bookmarkLists (snd (delete_mutation u listId d)) =
          filter (\<lambda>r. \<not> (list_id r = listId \<and> list_userId r = user_id u)) (bookmarkLists d)"
    by (simp add: delete_mutation_def delete_bookmarkLists_def Let_def)
qed

theorem delete_zero_rows_not_found_witness:
  "delete \<lparr>ctx_user = Some alice\<rparr> ''l1'' ex_db = delete_mutation alice ''l1'' ex_db
   \<and> delete_mutation alice ''l1'' (ex_db\<lparr>bookmarkLists := [recent]\<rparr>) =
       (Inl (TRPCError NOT_FOUND None), ex_db\<lparr>bookmarkLists := [recent]\<rparr>)
   \<and> fst (delete_mutation alice ''l1'' ex_db) = Inr ()
   \<and> bookmarkLists (snd (delete_mutation alice ''l1'' ex_db)) = [recent]"
proof -
  let ?c = "\<lparr>ctx_user = Some alice\<rparr>"
  have lg: "passes_list_guard ?c ''l1'' ex_db"
    by (simp add: passes_list_guard_def ensureListOwnership_def proceed_def findFirst_def
      ex_db_def reading_def recent_def alice_def)
  have u: "ctx_user ?c = Some alice" by simp
  have h1: "\<forall>r \<in> set (bookmarkLists (ex_db\<lparr>bookmarkLists := [recent]\<rparr>)).
      \<not> (list_id r = ''l1'' \<and> list_userId r = user_id alice)"
    by (simp add: recent_def)
  have h2: "\<exists>r \<in> set (bookmarkLists ex_db). list_id r = ''l1'' \<and> list_userId r = user_id alice"
    by (simp add: ex_db_def reading_def alice_def)
  have f: "filter (\<lambda>r. \<not> (list_id r = ''l1'' \<and> list_userId r = user_id alice)) (bookmarkLists ex_db)
      = [recent]"
    by (simp add: ex_db_def reading_def recent_def alice_def)
  note t = delete_zero_rows_not_found [OF lg u]
  from t [THEN conjunct1]
    t [of "ex_db\<lparr>bookmarkLists := [recent]\<rparr>", THEN conjunct2, THEN conjunct1, THEN mp, OF h1]
    t [of ex_db, THEN conjunct2, THEN conjunct2, THEN mp, OF h2]
    f
  show ?thesis by simp
qed

section \<open>create\<close>

text \<open>
  Claim C8. For every \<^verbatim>\<open>create\<close> call by an authenticated caller, with \<open>newId\<close> the fresh
  identifier the store generates: the call succeeds, the stored row has the caller's id as
  \<^verbatim>\<open>userId\<close> and the name, icon, parentId, type and query of the input as given, whatever
  type and query are (invariant I1 is not enforced here), the row is appended to the table
  and nothing else changes, and the returned value is the stored row with its identifier.
\<close>

theorem create_persists_input:
  assumes "ctx_user c = Some u" and "newId \<notin> list_id ` set (bookmarkLists d)"
    and "row = \<lparr>list_id = newId, list_name = new_name inp, list_icon = new_icon inp,
            list_userId = user_id u, list_parentId = new_parentId inp,
            list_type = new_type inp, list_query = new_query inp\<rparr>"
  shows "create c newId inp d = (Inr row, d\<lparr>bookmarkLists := bookmarkLists d @ [row]\<rparr>)"
  using assms
  by (simp add: create_def authedProcedure_def create_mutation_def insert_bookmarkLists_def)

theorem create_persists_input_witness:
  "create \<lparr>ctx_user = Some alice\<rparr> ''l3'' odd_input ex_db =
     (Inr \<lparr>list_id = ''l3'', list_name = ''Odd'', list_icon = ''star'', list_userId = ''alice'',
           list_parentId = None, list_type = manual, list_query = Some ''select *''\<rparr>,
      ex_db\<lparr>bookmarkLists := [reading, recent,
          \<lparr>list_id = ''l3'', list_name = ''Odd'', list_icon = ''star'', list_userId = ''alice'',
           list_parentId = None, list_type = manual, list_query = Some ''select *''\<rparr>]\<rparr>)"
proof -
  have 1: "ctx_user \<lparr>ctx_user = Some alice\<rparr> = Some alice" by simp
  have 2: "''l3'' \<notin> list_id ` set (bookmarkLists ex_db)"
    by (simp add: ex_db_def reading_def recent_def)
  from create_persists_input [OF 1 2 refl, of odd_input] show ?thesis
    by (simp add: odd_input_def alice_def ex_db_def)
qed

section \<open>edit: what a successful edit changes\<close>

lemma edit_success_is_mutation:
  assumes "edit c inp d = (Inr x, d')"
  obtains u where "ctx_user c = Some u" and "edit_mutation u inp d = (Inr x, d')"
  using assms authed_fails_or_runs [of c "\<lambda>u. ensureListOwnership c (edit_listId inp) (edit_mutation u inp)" d]
    guard_fails_or_runs [of c "edit_listId inp" _ d]
  unfolding edit_def by (metis Inl_Inr_False prod.inject)

lemma edit_set_frame: "list_id r = edit_listId inp \<Longrightarrow> edit_frame inp r (edit_set inp r)"
  by (simp add: edit_frame_def edit_set_def)

lemma edit_frame_refl: "edit_frame inp r r"
  by (simp add: edit_frame_def)

lemma edit_mutation_success:
  assumes "edit_mutation u inp d = (Inr r', d')"
  defines "p \<equiv> \<lambda>r. list_id r = edit_listId inp \<and> list_userId r = user_id u"
  shows "d' = d\<lparr>bookmarkLists := map (\<lambda>r. if p r then edit_set inp r else r) (bookmarkLists d)\<rparr>"
    and "\<exists>r \<in> set (bookmarkLists d). p r \<and> r' = edit_set inp r"
proof -
  from assms(1) have res: "map (edit_set inp) (filter p (bookmarkLists d)) = r' # tl (map (edit_set inp) (filter p (bookmarkLists d)))"
    and d': "d' = d\<lparr>bookmarkLists := map (\<lambda>r. if p r then edit_set inp r else r) (bookmarkLists d)\<rparr>"
    by (auto simp: edit_mutation_def update_bookmarkLists_def p_def
        split: option.splits list.splits)
  show "d' = d\<lparr>bookmarkLists := map (\<lambda>r. if p r then edit_set inp r else r) (bookmarkLists d)\<rparr>"
    by (rule d')
  from res have "r' \<in> set (map (edit_set inp) (filter p (bookmarkLists d)))"
    by (metis list.set_intros(1))
  then show "\<exists>r \<in> set (bookmarkLists d). p r \<and> r' = edit_set inp r"
    by auto
qed

text \<open>
  Claim C9. After a successful \<^verbatim>\<open>edit\<close>, every stored list has the \<^verbatim>\<open>id\<close>, \<^verbatim>\<open>userId\<close> and
  \<^verbatim>\<open>type\<close> it had before; of its \<^verbatim>\<open>name\<close>, \<^verbatim>\<open>icon\<close>, \<^verbatim>\<open>parentId\<close> and \<^verbatim>\<open>query\<close>, each one
  the call does not give keeps its value; a list with another id is not changed at all; the
  memberships and the bookmarks are not changed; and the returned row is the stored row of
  the edited list, with the new value in each field the call gives.
\<close>

theorem edit_changes_only_given_fields:
  assumes "edit c inp d = (Inr r', d')"
  shows "list_all2 (edit_frame inp) (bookmarkLists d) (bookmarkLists d')
    \<and> bookmarksInLists d' = bookmarksInLists d \<and> bookmarks d' = bookmarks d
    \<and> r' \<in> set (bookmarkLists d') \<and> list_id r' = edit_listId inp
    \<and> list_name r' = (case edit_name inp of None \<Rightarrow> list_name r' | Some n \<Rightarrow> n)
    \<and> list_icon r' = (case edit_icon inp of None \<Rightarrow> list_icon r' | Some i \<Rightarrow> i)
    \<and> (case edit_parentId inp of Undefined \<Rightarrow> True | Null \<Rightarrow> list_parentId r' = None
         | Val p \<Rightarrow> list_parentId r' = Some p)
    \<and> (case edit_query inp of Undefined \<Rightarrow> True | Null \<Rightarrow> list_query r' = None
         | Val q \<Rightarrow> list_query r' = Some q)"
proof -
  from assms obtain u where m: "edit_mutation u inp d = (Inr r', d')"
    by (rule edit_success_is_mutation)
  let ?p = "\<lambda>r. list_id r = edit_listId inp \<and> list_userId r = user_id u"
  note s = edit_mutation_success [OF m]
  from s(2) obtain r where r: "r \<in> set (bookmarkLists d)" "?p r" "r' = edit_set inp r"
    by blast
  have rows: "bookmarkLists d' = map (\<lambda>r. if ?p r then edit_set inp r else r) (bookmarkLists d)"
    by (subst s(1)) simp
  have "list_all2 (edit_frame inp) (bookmarkLists d) (bookmarkLists d')"
    unfolding rows list.rel_map
    by (rule list.rel_refl_strong) (simp add: edit_set_frame edit_frame_refl)
  moreover have "bookmarksInLists d' = bookmarksInLists d" "bookmarks d' = bookmarks d"
    by (subst s(1), simp)+
  moreover have "r' \<in> set (bookmarkLists d')"
    unfolding rows using r by force
  moreover have "list_id r' = edit_listId inp"
    using r by (simp add: edit_set_def)
  moreover have "list_name r' = (case edit_name inp of None \<Rightarrow> list_name r' | Some n \<Rightarrow> n)"
    "list_icon r' = (case edit_icon inp of None \<Rightarrow> list_icon r' | Some i \<Rightarrow> i)"
    "case edit_parentId inp of Undefined \<Rightarrow> True | Null \<Rightarrow> list_parentId r' = None
         | Val p \<Rightarrow> list_parentId r' = Some p"
    "case edit_query inp of Undefined \<Rightarrow> True | Null \<Rightarrow> list_query r' = None
         | Val q \<Rightarrow> list_query r' = Some q"
    using r(3) by (simp_all add: edit_set_def split: option.splits js.splits)
  ultimately show ?thesis by blast
qed

theorem edit_changes_only_given_fields_witness:
  "edit \<lparr>ctx_user = Some alice\<rparr> rename_edit ex_db =
      (Inr (reading\<lparr>list_name := ''Later''\<rparr>),
       ex_db\<lparr>bookmarkLists := [reading\<lparr>list_name := ''Later''\<rparr>, recent]\<rparr>)
   \<and> list_all2 (edit_frame rename_edit) (bookmarkLists ex_db)
        (bookmarkLists (ex_db\<lparr>bookmarkLists := [reading\<lparr>list_name := ''Later''\<rparr>, recent]\<rparr>))
   \<and> list_userId (reading\<lparr>list_name := ''Later''\<rparr>) = list_userId reading
   \<and> list_type (reading\<lparr>list_name := ''Later''\<rparr>) = list_type reading"
proof -
  have run: "edit \<lparr>ctx_user = Some alice\<rparr> rename_edit ex_db =
      (Inr (reading\<lparr>list_name := ''Later''\<rparr>),
       ex_db\<lparr>bookmarkLists := [reading\<lparr>list_name := ''Later''\<rparr>, recent]\<rparr>)"
    by (simp add: edit_def authedProcedure_def ensureListOwnership_def findFirst_def
        edit_mutation_def edit_check_def update_bookmarkLists_def edit_set_def
        rename_edit_def ex_db_def reading_def recent_def alice_def)
  from edit_changes_only_given_fields [OF run] run show ?thesis
    by simp
qed

section \<open>getListsOfBookmark\<close>

lemma those_Some_iff: "those xs = Some ys \<longleftrightarrow> xs = map Some ys"
  by (induction xs arbitrary: ys) (auto split: option.splits)

lemma those_None_iff: "those xs = None \<longleftrightarrow> None \<in> set xs"
  by (induction xs) (auto split: option.splits)

lemma getListsOfBookmark_run:
  assumes "passes_bookmark_guard c bookmarkId d" and "ctx_user c = Some u"
  shows "getListsOfBookmark c bookmarkId d = getListsOfBookmark_query u bookmarkId d"
  using assms
  by (simp add: getListsOfBookmark_def authedProcedure_run passes_bookmark_guard_run)

text \<open>
  Claim C10. For every \<^verbatim>\<open>getListsOfBookmark\<close> call that passes the bookmark guard: when it
  returns, every returned list has the caller's id as \<^verbatim>\<open>userId\<close>, the returned lists are the
  lists joined to the bookmark's membership rows, one per row and none left out, and the
  store is unchanged; when a joined list belongs to another owner the call throws (the
  assertion's error, or the error of reading a missing joined list, which is evaluated
  first) and never returns a filtered collection; with every join resolved it is the
  assertion that fails.
\<close>

theorem getListsOfBookmark_owner_check:
  assumes bg: "passes_bookmark_guard c bookmarkId d" and u: "ctx_user c = Some u"
  shows
    "(getListsOfBookmark c bookmarkId d = (Inr ls, d') \<longrightarrow>
        d' = d \<and> (\<forall>l \<in> set ls. list_userId l = user_id u)
        \<and> map Some ls =
            map (\<lambda>m. findFirst (\<lambda>l. list_id l = bil_listId m) (bookmarkLists d))
              (filter (\<lambda>m. bil_bookmarkId m = bookmarkId) (bookmarksInLists d)))
     \<and> ((\<exists>m \<in> set (bookmarksInLists d). bil_bookmarkId m = bookmarkId
            \<and> (\<exists>l. findFirst (\<lambda>l. list_id l = bil_listId m) (bookmarkLists d) = Some l
                  \<and> list_userId l \<noteq> user_id u)) \<longrightarrow>
          (getListsOfBookmark c bookmarkId d = (Inl AssertionError, d)
            \<or> getListsOfBookmark c bookmarkId d = (Inl TypeError, d))
          \<and> ((\<forall>m \<in> set (bookmarksInLists d). bil_bookmarkId m = bookmarkId \<longrightarrow>
                 findFirst (\<lambda>l. list_id l = bil_listId m) (bookmarkLists d) \<noteq> None) \<longrightarrow>
               getListsOfBookmark c bookmarkId d = (Inl AssertionError, d)))"
proof -
  let ?rows = "filter (\<lambda>m. bil_bookmarkId m = bookmarkId) (bookmarksInLists d)"
  let ?joined = "map (\<lambda>m. findFirst (\<lambda>l. list_id l = bil_listId m) (bookmarkLists d)) ?rows"
  have run: "getListsOfBookmark c bookmarkId d =
      (case those ?joined of
         None \<Rightarrow> (Inl TypeError, d)
       | Some ls \<Rightarrow> if \<forall>l \<in> set ls. list_userId l = user_id u then (Inr ls, d)
                    else (Inl AssertionError, d))"
    by (auto simp: getListsOfBookmark_run [OF bg u] getListsOfBookmark_query_def findMany_def
        list_all_iff Let_def split: option.splits)
  have ok: "d' = d \<and> (\<forall>l \<in> set ls. list_userId l = user_id u) \<and> map Some ls = ?joined"
    if "getListsOfBookmark c bookmarkId d = (Inr ls, d')"
    using that unfolding run
    by (auto split: option.splits if_splits simp: those_Some_iff)
  have bad: "(getListsOfBookmark c bookmarkId d = (Inl AssertionError, d)
            \<or> getListsOfBookmark c bookmarkId d = (Inl TypeError, d))
          \<and> ((\<forall>m \<in> set (bookmarksInLists d). bil_bookmarkId m = bookmarkId \<longrightarrow>
                 findFirst (\<lambda>l. list_id l = bil_listId m) (bookmarkLists d) \<noteq> None) \<longrightarrow>
               getListsOfBookmark c bookmarkId d = (Inl AssertionError, d))"
    if m: "m \<in> set (bookmarksInLists d)" "bil_bookmarkId m = bookmarkId"
      and l: "findFirst (\<lambda>l. list_id l = bil_listId m) (bookmarkLists d) = Some l"
        "list_userId l \<noteq> user_id u"
    for m l
  proof (cases "those ?joined")
    case None
    then have "None \<in> set ?joined" by (simp add: those_None_iff)
    then have "\<not> (\<forall>m \<in> set (bookmarksInLists d). bil_bookmarkId m = bookmarkId \<longrightarrow>
                 findFirst (\<lambda>l. list_id l = bil_listId m) (bookmarkLists d) \<noteq> None)"
      by force
    with None show ?thesis by (simp add: run)
  next
    case (Some ls)
    then have j: "?joined = map Some ls" by (simp add: those_Some_iff)
    from m l have "Some l \<in> set ?joined" by force
    with j have "l \<in> set ls" by auto
    with l(2) have "\<not> (\<forall>l \<in> set ls. list_userId l = user_id u)" by blast
    with Some show ?thesis by (simp add: run)
  qed
  from ok bad show ?thesis by blast
qed

theorem getListsOfBookmark_owner_check_witness:
  "getListsOfBookmark \<lparr>ctx_user = Some alice\<rparr> ''b1'' ex_db = (Inr [reading], ex_db)
   \<and> list_userId reading = user_id alice
   \<and> getListsOfBookmark \<lparr>ctx_user = Some alice\<rparr> ''b1'' cross_db = (Inl AssertionError, cross_db)"
proof -
  let ?c = "\<lparr>ctx_user = Some alice\<rparr>"
  have u: "ctx_user ?c = Some alice" by simp
  have b1: "passes_bookmark_guard ?c ''b1'' ex_db"
    by (simp add: passes_bookmark_guard_def ensureBookmarkOwnership_def proceed_def findFirst_def
      ex_db_def alice_def)
  have b2: "passes_bookmark_guard ?c ''b1'' cross_db"
    by (simp add: passes_bookmark_guard_def ensureBookmarkOwnership_def proceed_def findFirst_def
      ex_db_def cross_db_def alice_def)
  have run: "getListsOfBookmark ?c ''b1'' ex_db = (Inr [reading], ex_db)"
    by (simp add: getListsOfBookmark_def authedProcedure_def ensureBookmarkOwnership_def
        getListsOfBookmark_query_def findMany_def findFirst_def
        ex_db_def reading_def recent_def alice_def)
  have h: "\<exists>m \<in> set (bookmarksInLists cross_db). bil_bookmarkId m = ''b1''
            \<and> (\<exists>l. findFirst (\<lambda>l. list_id l = bil_listId m) (bookmarkLists cross_db) = Some l
                  \<and> list_userId l \<noteq> user_id alice)"
    by (simp add: cross_db_def findFirst_def reading_def recent_def bobs_def alice_def)
  have h2: "\<forall>m \<in> set (bookmarksInLists cross_db). bil_bookmarkId m = ''b1'' \<longrightarrow>
                 findFirst (\<lambda>l. list_id l = bil_listId m) (bookmarkLists cross_db) \<noteq> None"
    by (simp add: cross_db_def findFirst_def reading_def recent_def bobs_def)
  from getListsOfBookmark_owner_check [OF b1 u, THEN conjunct1, THEN mp, OF run]
    getListsOfBookmark_owner_check [OF b2 u, THEN conjunct2, THEN mp, OF h, THEN conjunct2, THEN mp, OF h2]
    run
  show ?thesis by simp
qed

section \<open>The procedures preserve the invariants\<close>

text \<open>The uniqueness of identifiers, I3 and I4 hold in the empty store and are preserved by
  every procedure, whatever it returns: they hold in every store the router reaches.\<close>

lemma not_smart_manual: "k \<noteq> smart \<longleftrightarrow> k = manual"
  by (cases k) auto

lemma wf_db_empty: "wf_db \<lparr>bookmarkLists = [], bookmarksInLists = [], bookmarks = bs\<rparr>"
  by (simp add: wf_db_def unique_ids_def inv_I3_def inv_I4_def)

lemma create_mutation_preserves_wf:
  assumes "wf_db d"
  shows "wf_db (snd (create_mutation newId u inp d))"
  using assms
  by (auto simp: create_mutation_def insert_bookmarkLists_def wf_db_def unique_ids_def
      inv_I3_def inv_I4_def)

lemma edit_set_keeps: "list_id (edit_set inp r) = list_id r" "list_type (edit_set inp r) = list_type r"
  "list_userId (edit_set inp r) = list_userId r"
  by (simp_all add: edit_set_def)

lemma update_preserves_wf:
  assumes "wf_db d"
  shows "wf_db (d\<lparr>bookmarkLists := map (\<lambda>r. if p r then edit_set inp r else r) (bookmarkLists d)\<rparr>)"
proof -
  let ?f = "\<lambda>r. if p r then edit_set inp r else r"
  let ?d' = "d\<lparr>bookmarkLists := map ?f (bookmarkLists d)\<rparr>"
  have keep: "list_id (?f r) = list_id r" "list_type (?f r) = list_type r" for r
    by (simp_all add: edit_set_keeps)
  have ids: "map list_id (map ?f (bookmarkLists d)) = map list_id (bookmarkLists d)"
    unfolding map_map comp_def keep ..
  have u: "unique_ids ?d'"
    using assms unfolding wf_db_def unique_ids_def by (simp add: ids del: map_map)
  have i3: "inv_I3 ?d'"
    using assms by (simp add: wf_db_def inv_I3_def)
  have i4: "inv_I4 ?d'"
    unfolding inv_I4_def
  proof
    fix m assume "m \<in> set (bookmarksInLists ?d')"
    then have "m \<in> set (bookmarksInLists d)" by simp
    with assms obtain l where l: "l \<in> set (bookmarkLists d)" "list_id l = bil_listId m"
      "list_type l = manual"
      by (auto simp: wf_db_def inv_I4_def)
    from l(1) have "?f l \<in> set (bookmarkLists ?d')" by simp
    moreover from l(2,3) have "list_id (?f l) = bil_listId m \<and> list_type (?f l) = manual"
      by (simp only: keep)
    ultimately show "\<exists>l \<in> set (bookmarkLists ?d'). list_id l = bil_listId m \<and> list_type l = manual"
      by blast
  qed
  from u i3 i4 show ?thesis by (simp only: wf_db_def)
qed

lemma edit_mutation_preserves_wf:
  assumes "wf_db d"
  shows "wf_db (snd (edit_mutation u inp d))"
  using assms update_preserves_wf [OF assms]
  by (auto simp: edit_mutation_def update_bookmarkLists_def split: option.splits list.splits)

lemma delete_mutation_preserves_wf:
  assumes "wf_db d"
  shows "wf_db (snd (delete_mutation u listId d))"
proof -
  let ?p = "\<lambda>r. list_id r = listId \<and> list_userId r = user_id u"
  let ?gone = "map list_id (filter ?p (bookmarkLists d))"
  let ?d' = "d\<lparr>bookmarkLists := filter (\<lambda>r. \<not> ?p r) (bookmarkLists d),
         bookmarksInLists := filter (\<lambda>m. bil_listId m \<notin> set ?gone) (bookmarksInLists d)\<rparr>"
  have snd: "snd (delete_mutation u listId d) = ?d'"
    by (simp add: delete_mutation_def delete_bookmarkLists_def Let_def)
  have u: "unique_ids ?d'"
    using assms by (simp add: wf_db_def unique_ids_def distinct_map_filter)
  have i3: "inv_I3 ?d'"
    using assms by (simp add: wf_db_def inv_I3_def)
  have i4: "inv_I4 ?d'"
    unfolding inv_I4_def
  proof
    fix m assume "m \<in> set (bookmarksInLists ?d')"
    then have m: "m \<in> set (bookmarksInLists d)" "bil_listId m \<notin> set ?gone" by auto
    with assms obtain l where l: "l \<in> set (bookmarkLists d)" "list_id l = bil_listId m"
      "list_type l = manual"
      by (auto simp: wf_db_def inv_I4_def)
    with m(2) have "\<not> ?p l" by force
    with l show "\<exists>l \<in> set (bookmarkLists ?d'). list_id l = bil_listId m \<and> list_type l = manual"
      by auto
  qed
  from u i3 i4 show ?thesis by (simp only: snd wf_db_def)
qed

lemma addToList_mutation_preserves_wf:
  assumes "wf_db d"
  shows "wf_db (snd (addToList_mutation fault u listId bookmarkId d))"
proof (cases "fst (addToList_mutation fault u listId bookmarkId d)")
  case (Inl e)
  then have "snd (addToList_mutation fault u listId bookmarkId d) = d"
    by (auto simp: addToList_mutation_def split: option.splits if_splits sum.splits error.splits)
  with assms show ?thesis by simp
next
  case (Inr x)
  let ?row = "\<lparr>bil_listId = listId, bil_bookmarkId = bookmarkId\<rparr>"
  from Inr obtain L where
    L: "findFirst (\<lambda>r. list_id r = listId \<and> list_userId r = user_id u) (bookmarkLists d) = Some L"
      "list_type L = manual"
    and new: "?row \<notin> set (bookmarksInLists d)"
    and d': "snd (addToList_mutation fault u listId bookmarkId d) =
       d\<lparr>bookmarksInLists := bookmarksInLists d @ [?row]\<rparr>"
    by (auto simp: addToList_mutation_def insert_bookmarksInLists_def not_smart_manual
        split: option.splits if_splits sum.splits error.splits)
  from L(1) have "L \<in> set (bookmarkLists d)" "list_id L = listId"
    by (auto dest: findFirst_SomeD)
  with L(2) assms new show ?thesis
    unfolding d' wf_db_def unique_ids_def inv_I3_def inv_I4_def by auto
qed

lemma removeFromList_mutation_preserves_wf:
  assumes "wf_db d"
  shows "wf_db (snd (removeFromList_mutation u listId bookmarkId d))"
  using assms
  by (auto simp: removeFromList_mutation_def delete_bookmarksInLists_def wf_db_def
      unique_ids_def inv_I3_def inv_I4_def)

lemma getListsOfBookmark_query_preserves_wf:
  "snd (getListsOfBookmark_query u bookmarkId d) = d"
  by (simp add: getListsOfBookmark_query_def Let_def split: option.splits)

text \<open>A guard hands the store to the rest of the procedure or leaves it as it is, so a
  procedure preserves what its handler preserves.\<close>

lemma authed_preserves:
  assumes "P d" and "\<And>u. P (snd (body u d))"
  shows "P (snd (authedProcedure c body d))"
  using assms by (simp add: authedProcedure_def split: option.splits)

lemma list_guard_preserves:
  assumes "P d" and "P (snd (k d))"
  shows "P (snd (ensureListOwnership c listId k d))"
  using assms by (simp add: ensureListOwnership_def Let_def split: option.splits)

lemma bookmark_guard_preserves:
  assumes "P d" and "P (snd (k d))"
  shows "P (snd (ensureBookmarkOwnership c bookmarkId k d))"
  using assms by (simp add: ensureBookmarkOwnership_def Let_def split: option.splits)

lemma create_preserves_wf: "wf_db d \<Longrightarrow> wf_db (snd (create c newId inp d))"
  unfolding create_def
  by (rule authed_preserves [where P = wf_db]) (simp_all add: create_mutation_preserves_wf)

lemma edit_preserves_wf: "wf_db d \<Longrightarrow> wf_db (snd (edit c inp d))"
  unfolding edit_def
  by (rule authed_preserves [where P = wf_db], assumption,
      rule list_guard_preserves [where P = wf_db], assumption,
      rule edit_mutation_preserves_wf)

lemma delete_preserves_wf: "wf_db d \<Longrightarrow> wf_db (snd (delete c listId d))"
  unfolding delete_def
  by (rule authed_preserves [where P = wf_db], assumption,
      rule list_guard_preserves [where P = wf_db], assumption,
      rule delete_mutation_preserves_wf)

lemma addToList_preserves_wf: "wf_db d \<Longrightarrow> wf_db (snd (addToList c fault listId bookmarkId d))"
  unfolding addToList_def
  by (rule authed_preserves [where P = wf_db], assumption,
      rule list_guard_preserves [where P = wf_db], assumption,
      rule bookmark_guard_preserves [where P = wf_db], assumption,
      rule addToList_mutation_preserves_wf)

lemma removeFromList_preserves_wf: "wf_db d \<Longrightarrow> wf_db (snd (removeFromList c listId bookmarkId d))"
  unfolding removeFromList_def
  by (rule authed_preserves [where P = wf_db], assumption,
      rule list_guard_preserves [where P = wf_db], assumption,
      rule bookmark_guard_preserves [where P = wf_db], assumption,
      rule removeFromList_mutation_preserves_wf)

lemma getListsOfBookmark_preserves_wf: "wf_db d \<Longrightarrow> wf_db (snd (getListsOfBookmark c bookmarkId d))"
  unfolding getListsOfBookmark_def
  by (rule authed_preserves [where P = wf_db], assumption,
      rule bookmark_guard_preserves [where P = wf_db], assumption,
      simp add: getListsOfBookmark_query_preserves_wf)

lemma wf_ex_db: "wf_db ex_db"
  by (simp add: wf_db_def unique_ids_def inv_I3_def inv_I4_def ex_db_def reading_def recent_def)

end
